theory Spec2Isabelle
  imports Complex_Main "HOL-Library.Sublist"
begin

section \<open>Caption post-processor: windows of captions and their summaries\<close>

text \<open>
  A shallow embedding of \<^verbatim>\<open>caption_post_processor.py\<close>. Timestamps are Python floats
  read from \<^verbatim>\<open>time.time()\<close>; they are modelled as real numbers, so \<^verbatim>\<open>start + duration\<close>
  is exact. The clock, the camera and the Gemini service are outside the program: the
  clock value is an argument of every operation that reads it, the outcome of a frame
  analysis is part of the event that delivers it, and the model object is a function
  from the text prompt to the outcome of \<^verbatim>\<open>generate_content\<close>. The methods of the
  capture loop run one after the other; an analysis thread either runs its closure without
  interruption (\<open>analyze\<close>) or is interrupted between obtaining its window and adding its
  caption to it (\<open>load_window\<close>, \<open>add_caption_at\<close>, \<open>thread_step\<close>).
\<close>

subsection \<open>The world outside the program\<close>

text \<open>
  The outcome of a call that may raise: \<open>Inl msg\<close> when an exception \<open>e\<close> with
  \<^verbatim>\<open>str(e) = msg\<close> is raised, \<open>Inr t\<close> when the call returns a response whose
  \<^verbatim>\<open>.text\<close> is \<open>t\<close>.
\<close>

type_synonym outcome = "string + string"

text \<open>
  A \<^verbatim>\<open>genai.GenerativeModel\<close> object: \<open>m n prompt\<close> is the outcome of
  \<^verbatim>\<open>generate_content(prompt)\<close> when \<open>n\<close> text prompts were sent to the object before,
  so two calls with the same prompt may answer differently.
\<close>

type_synonym gen_model = "nat \<Rightarrow> string \<Rightarrow> outcome"

text \<open>
  Formatting done by the Python runtime: \<open>strftime_hms t\<close> is
  \<^verbatim>\<open>datetime.fromtimestamp(t).strftime('%H:%M:%S')\<close> (it depends on the local time zone),
  \<open>str_float x\<close> is the text an f-string gives a float.
\<close>

record host =
  strftime_hms :: "real \<Rightarrow> string"
  str_float :: "real \<Rightarrow> string"

datatype py_error = Exception string | AttributeError string

subsection \<open>Strings\<close>

text \<open>
  \<^verbatim>\<open>str.strip()\<close> on the ASCII range: the characters for which \<^verbatim>\<open>str.isspace()\<close> holds
  are 9 to 13, 28 to 31 and the blank. A \<open>char\<close> is a byte, so the white space beyond
  ASCII that \<^verbatim>\<open>str.strip()\<close> also removes (U+0085, U+00A0 and others) is not stripped here.
\<close>

definition py_isspace :: "char \<Rightarrow> bool" where
  "py_isspace c = (c \<in> set [CHR 0x09, CHR 0x0A, CHR 0x0B, CHR 0x0C, CHR 0x0D,
                             CHR 0x1C, CHR 0x1D, CHR 0x1E, CHR 0x1F, CHR '' ''])"

definition strip :: "string \<Rightarrow> string" where
  "strip s = rev (dropWhile py_isspace (rev (dropWhile py_isspace s)))"

text \<open>\<^verbatim>\<open>sep.join(xs)\<close>\<close>

fun join :: "string \<Rightarrow> string list \<Rightarrow> string" where
  "join sep [] = []"
| "join sep [x] = x"
| "join sep (x # y # ys) = x @ sep @ join sep (y # ys)"

text \<open>The decimal text of a natural number, as \<^verbatim>\<open>str(len(xs))\<close> gives it.\<close>

fun str_nat :: "nat \<Rightarrow> string" where
  "str_nat n = (if n < 10 then [''0123456789'' ! n]
                else str_nat (n div 10) @ [''0123456789'' ! (n mod 10)])"

subsection \<open>CaptionEntry\<close>

text \<open>
  The field \<^verbatim>\<open>datetime\<close> of the class is \<^verbatim>\<open>datetime.fromtimestamp(timestamp)\<close>, a function of
  \<open>timestamp\<close> that is only ever formatted; it is computed where it is printed.
\<close>

record CaptionEntry =
  "text" :: string
  timestamp :: real

definition CaptionEntry_init :: "string \<Rightarrow> real \<Rightarrow> CaptionEntry" where
  "CaptionEntry_init t ts = \<lparr>text = strip t, timestamp = ts\<rparr>"

definition CaptionEntry_str :: "host \<Rightarrow> CaptionEntry \<Rightarrow> string" where
  "CaptionEntry_str h c = ''['' @ strftime_hms h (timestamp c) @ ''] '' @ text c"

subsection \<open>CaptionWindow\<close>

record CaptionWindow =
  start_time :: real
  end_time :: real
  captions :: "CaptionEntry list"
  summary :: string
  summarized :: bool

text \<open>
  \<open>end_time\<close> is the exact sum of the start and the duration; the float addition of the
  code rounds it.
\<close>

definition CaptionWindow_init :: "real \<Rightarrow> real \<Rightarrow> CaptionWindow" where
  "CaptionWindow_init start window_duration =
     \<lparr>start_time = start, end_time = start + window_duration, captions = [],
      summary = [], summarized = False\<rparr>"

text \<open>
  \<open>add_caption\<close> mutates the window and returns a truth value: the model returns both.
  The method does not read \<open>summarized\<close>.
\<close>

definition add_caption :: "CaptionWindow \<Rightarrow> CaptionEntry \<Rightarrow> bool \<times> CaptionWindow" where
  "add_caption w caption =
     (if start_time w \<le> timestamp caption \<and> timestamp caption < end_time w
      then (True, w\<lparr>captions := captions w @ [caption]\<rparr>)
      else (False, w))"

definition is_complete :: "CaptionWindow \<Rightarrow> real \<Rightarrow> bool" where
  "is_complete w current_time = (current_time \<ge> end_time w)"

definition get_captions_text :: "host \<Rightarrow> CaptionWindow \<Rightarrow> string" where
  "get_captions_text h w = join [CHR 0x0A] (map (CaptionEntry_str h) (captions w))"

definition get_timestamp_range :: "host \<Rightarrow> CaptionWindow \<Rightarrow> string" where
  "get_timestamp_range h w =
     strftime_hms h (start_time w) @ '' - '' @ strftime_hms h (end_time w)"

text \<open>The time range \<open>[start, end)\<close> of a window, as a pair.\<close>

definition time_range :: "CaptionWindow \<Rightarrow> real \<times> real" where
  "time_range w = (start_time w, end_time w)"

subsection \<open>CaptionPostProcessor\<close>

text \<open>
  The fields of the object but \<^verbatim>\<open>cap\<close>, the camera handle. \<open>prompt_calls\<close> is not a field
  of the class: it records the text prompts sent to \<open>model\<close> so far (the probe of
  \<open>initialize_gemini\<close> and the prompts of \<open>summarize_window\<close>), which is the effect
  of the program on the summarization service.
\<close>

record CaptionPostProcessor =
  api_key :: string
  camera_index :: int
  window_duration :: real
  model :: "gen_model option"
  running :: bool
  current_window :: "CaptionWindow option"
  completed_windows :: "CaptionWindow list"
  latest_description :: string
  frame_count :: nat
  last_frame_time :: real
  frame_interval :: real
  prompt_calls :: "string list"

definition model_names :: "string list" where
  "model_names = [''gemini-2.0-flash'', ''gemini-2.5-flash'', ''gemini-2.0-flash-exp'',
                  ''gemini-flash-latest'', ''gemini-pro-latest'']"

text \<open>
  The loop of \<open>initialize_gemini\<close> over the model names. \<open>GenerativeModel name\<close> is
  the outcome of \<^verbatim>\<open>genai.GenerativeModel(name)\<close>: \<open>Inl\<close> when it raises, \<open>Inr m\<close> when it
  returns the object \<open>m\<close>. A name is accepted when the probe \<^verbatim>\<open>generate_content("Hello")\<close>
  returns a non-empty text.
\<close>

fun try_models :: "(string \<Rightarrow> string + gen_model) \<Rightarrow> string list \<Rightarrow> gen_model option" where
  "try_models GenerativeModel [] = None"
| "try_models GenerativeModel (model_name # rest) =
     (case GenerativeModel model_name of
        Inl e \<Rightarrow> try_models GenerativeModel rest
      | Inr m \<Rightarrow>
          (case m 0 ''Hello'' of
             Inl e \<Rightarrow> try_models GenerativeModel rest
           | Inr t \<Rightarrow> if t \<noteq> [] then Some m else try_models GenerativeModel rest))"

definition initialize_gemini :: "(string \<Rightarrow> string + gen_model) \<Rightarrow> py_error + gen_model" where
  "initialize_gemini GenerativeModel =
     (case try_models GenerativeModel model_names of
        None \<Rightarrow> Inl (Exception ''Could not initialize any Gemini model'')
      | Some m \<Rightarrow> Inr m)"

text \<open>
  \<^verbatim>\<open>__init__\<close>: the fields are set, then \<open>initialize_gemini\<close> runs; when it raises, no
  object is constructed. No statement of the constructor reads \<open>window_duration\<close>.
\<close>

definition CaptionPostProcessor_init ::
  "(string \<Rightarrow> string + gen_model) \<Rightarrow> string \<Rightarrow> int \<Rightarrow> real \<Rightarrow> py_error + CaptionPostProcessor" where
  "CaptionPostProcessor_init GenerativeModel key cam duration =
     (case initialize_gemini GenerativeModel of
        Inl e \<Rightarrow> Inl e
      | Inr m \<Rightarrow>
          Inr \<lparr>api_key = key, camera_index = cam, window_duration = duration,
               model = Some m, running = False, current_window = None,
               completed_windows = [], latest_description = ''Initializing...'',
               frame_count = 0, last_frame_time = 0, frame_interval = 1 / 2,
               prompt_calls = [''Hello'']\<rparr>)"

text \<open>
  \<open>analyze_frame\<close>: \<open>r\<close> is the outcome of the body of its \<^verbatim>\<open>try\<close> (resizing and encoding
  the frame, \<^verbatim>\<open>generate_content([prompt, image_part])\<close>, reading \<^verbatim>\<open>response.text\<close>).
\<close>

definition analyze_frame :: "CaptionPostProcessor \<Rightarrow> outcome \<Rightarrow> string" where
  "analyze_frame p r =
     (case model p of
        None \<Rightarrow> ''Gemini not initialized''
      | Some m \<Rightarrow>
          (case r of
             Inr t \<Rightarrow> if t \<noteq> [] then strip t else ''No description available''
           | Inl e \<Rightarrow> ''Analysis error: '' @ e))"

text \<open>
  The closure \<^verbatim>\<open>analyze\<close> of \<open>capture_and_display\<close>, run by an analysis thread that
  is not interrupted: \<open>ts\<close> is the value of \<^verbatim>\<open>time.time()\<close> read after the analysis.
\<close>

definition analyze :: "CaptionPostProcessor \<Rightarrow> outcome \<Rightarrow> real \<Rightarrow> CaptionPostProcessor" where
  "analyze p r ts =
     (let description = analyze_frame p r;
          caption = CaptionEntry_init description ts;
          w = (case current_window p of
                 None \<Rightarrow> CaptionWindow_init ts (window_duration p)
               | Some w \<Rightarrow> w)
      in p\<lparr>latest_description := description,
            current_window := Some (snd (add_caption w caption))\<rparr>)"

text \<open>The prompt of \<open>summarize_window\<close>, an f-string over three values.\<close>

definition summary_prompt :: "host \<Rightarrow> real \<Rightarrow> CaptionWindow \<Rightarrow> string" where
  \<open>summary_prompt h duration w = join [CHR 0x0A]
     ['''',
      ''Analyze the following video captions from a '' @ str_float h duration @
        ''-second window and create a declarative summary focused on object movements.'',
      '''',
      ''For each object or person in the scene, identify:'',
      ''1. Initial location/position'',
      ''2. Movement trajectory (where it moved to)'',
      ''3. Final location/position'',
      ''4. Whether it remained stationary'',
      '''',
      ''Format the summary as:'',
      ''"Object started at [initial_location], moved to [final_location]. '' @
        ''Object2 began at [initial_location], remained stationary. '' @
        ''Object3 started at [initial_location], moved to [intermediate_location], '' @
        ''then to [final_location]."'',
      '''',
      ''Focus on:'',
      ''- Object identification (Person, laptop, cup, papers, phone, etc.)'',
      ''- Clear starting positions'',
      ''- Movement paths and destinations'',
      ''- Stationary objects that didn't move'',
      ''- Spatial relationships and positions'',
      '''',
      ''Avoid:'',
      ''- Colors, lighting, or visual details'',
      ''- Emotional or subjective descriptions'',
      ''- Background elements unless they moved'',
      ''- Static environmental descriptions'',
      '''',
      ''Captions from '' @ get_timestamp_range h w @ '':'',
      get_captions_text h w,
      '''',
      ''Provide a declarative summary of object movements:'',
      '''']\<close>

text \<open>
  \<open>summarize_window\<close> mutates the window it is given and calls the model: the model
  returns the new processor (one more prompt sent) and the new window. Every exception
  of the \<^verbatim>\<open>try\<close> block is caught by \<^verbatim>\<open>except Exception\<close>.
\<close>

definition summarize_window ::
  "host \<Rightarrow> CaptionPostProcessor \<Rightarrow> CaptionWindow \<Rightarrow> CaptionPostProcessor \<times> CaptionWindow" where
  "summarize_window h p w =
     (case model p of
        None \<Rightarrow> (p, w\<lparr>summary := ''No captions to summarize'', summarized := True\<rparr>)
      | Some m \<Rightarrow>
          if captions w = []
          then (p, w\<lparr>summary := ''No captions to summarize'', summarized := True\<rparr>)
          else
            (let prompt = summary_prompt h (window_duration p) w;
                 p' = p\<lparr>prompt_calls := prompt_calls p @ [prompt]\<rparr>
             in case m (length (prompt_calls p)) prompt of
                  Inr t \<Rightarrow> (p', w\<lparr>summary := strip t, summarized := True\<rparr>)
                | Inl e \<Rightarrow> (p', w\<lparr>summary := ''Summary error: '' @ e, summarized := True\<rparr>)))"

text \<open>
  \<open>complete_current_window\<close>: the window object stays the current one and is also the
  last element of \<open>completed_windows\<close>.
\<close>

definition complete_current_window :: "host \<Rightarrow> CaptionPostProcessor \<Rightarrow> CaptionPostProcessor" where
  "complete_current_window h p =
     (case current_window p of
        None \<Rightarrow> p
      | Some w \<Rightarrow>
          (let (p1, w1) =
                 (if captions w \<noteq> [] then summarize_window h p w
                  else (p, w\<lparr>summary := ''No captions captured'', summarized := True\<rparr>))
           in p1\<lparr>current_window := Some w1,
                  completed_windows := completed_windows p1 @ [w1]\<rparr>))"

text \<open>
  \<open>check_window_completion\<close>: \<open>now\<close> is the value of \<^verbatim>\<open>time.time()\<close> it reads. The test is
  an \<^verbatim>\<open>if\<close>, not a loop. After \<open>complete_current_window\<close> the current window is still
  present, so the \<open>None\<close> branch of the second \<open>case\<close> is never taken.
\<close>

definition check_window_completion ::
  "host \<Rightarrow> CaptionPostProcessor \<Rightarrow> real \<Rightarrow> CaptionPostProcessor" where
  "check_window_completion h p now =
     (case current_window p of
        None \<Rightarrow> p
      | Some w \<Rightarrow>
          if is_complete w now
          then (let p1 = complete_current_window h p
                in case current_window p1 of
                     None \<Rightarrow> p1
                   | Some w1 \<Rightarrow>
                       p1\<lparr>current_window :=
                            Some (CaptionWindow_init (end_time w1) (window_duration p1))\<rparr>)
          else p)"

text \<open>
  The final block of \<open>run\<close> (the statements under the comment "Summarize current window
  if it has content"): a current window with captions is summarized and appended to
  \<open>completed_windows\<close>; it stays the current window.
\<close>

definition summarize_final_window :: "host \<Rightarrow> CaptionPostProcessor \<Rightarrow> CaptionPostProcessor" where
  "summarize_final_window h p =
     (case current_window p of
        None \<Rightarrow> p
      | Some w \<Rightarrow>
          if captions w \<noteq> []
          then (let (p1, w1) = summarize_window h p w
                in p1\<lparr>current_window := Some w1,
                       completed_windows := completed_windows p1 @ [w1]\<rparr>)
          else p)"

text \<open>
  \<open>print_summary_report\<close>: the model returns the lines it prints, one string for each
  call of \<^verbatim>\<open>print\<close>.
\<close>

definition report_window :: "host \<Rightarrow> nat \<times> CaptionWindow \<Rightarrow> string list" where
  "report_window h iw =
     (case iw of (i, w) \<Rightarrow>
        [[CHR 0x0A] @ ''Window '' @ str_nat i @ '': '' @ get_timestamp_range h w,
         ''Captions: '' @ str_nat (length (captions w)),
         (if summarized w then ''Summary: '' @ summary w else ''Summary: Not available''),
         replicate 40 (CHR ''-'')])"

definition print_summary_report :: "host \<Rightarrow> CaptionPostProcessor \<Rightarrow> string list" where
  "print_summary_report h p =
     (if completed_windows p = [] then [''No completed windows to report'']
      else [[CHR 0x0A] @ replicate 80 (CHR ''=''), ''CAPTION SUMMARY REPORT'',
            replicate 80 (CHR ''='')] @
           concat (map (report_window h)
                     (zip [1 ..< Suc (length (completed_windows p))] (completed_windows p))))"

subsection \<open>The capture loop and \<open>run\<close>\<close>

text \<open>
  What happens to the processor while \<open>capture_and_display\<close> runs, in the order it
  happens: the loop finds the frame interval elapsed at clock value \<open>t\<close> and starts an
  analysis thread (\<open>Frame t\<close>); an analysis thread delivers the outcome \<open>r\<close> of its
  analysis at clock value \<open>ts\<close> (\<open>Analyzed r ts\<close>); the loop calls
  \<open>check_window_completion\<close>, which reads the clock value \<open>now\<close> (\<open>Check now\<close>).
\<close>

datatype event = Frame real | Analyzed outcome real | Check real

fun step :: "host \<Rightarrow> CaptionPostProcessor \<Rightarrow> event \<Rightarrow> CaptionPostProcessor" where
  "step h p (Frame t) =
     (if t - last_frame_time p \<ge> frame_interval p
      then p\<lparr>last_frame_time := t, frame_count := frame_count p + 1\<rparr>
      else p)"
| "step h p (Analyzed r ts) = analyze p r ts"
| "step h p (Check now) = check_window_completion h p now"

definition cleanup :: "CaptionPostProcessor \<Rightarrow> CaptionPostProcessor" where
  "cleanup p = p\<lparr>running := False\<rparr>"

text \<open>
  \<open>capture_and_display\<close> returns normally however its loop ends (a key press, a frame
  that cannot be read, an exception caught by its \<^verbatim>\<open>except Exception\<close>), after \<open>cleanup\<close>.
  The calls of \<open>cleanup\<close> into OpenCV are taken to succeed, and an exception that is not
  an \<^verbatim>\<open>Exception\<close> (a keyboard interrupt) is not represented.
\<close>

definition capture_and_display ::
  "host \<Rightarrow> CaptionPostProcessor \<Rightarrow> event list \<Rightarrow> CaptionPostProcessor" where
  "capture_and_display h p evs = cleanup (foldl (step h) p evs)"

text \<open>
  The names an instance of the class answers to: the methods of the class body and the
  fields set by \<^verbatim>\<open>__init__\<close>.
\<close>

definition CaptionPostProcessor_attributes :: "string list" where
  "CaptionPostProcessor_attributes =
     [''__init__'', ''initialize_gemini'', ''initialize_camera'', ''analyze_frame'',
      ''complete_current_window'', ''check_window_completion'', ''summarize_window'',
      ''get_display_text'', ''capture_and_display'', ''cleanup'', ''print_summary_report'',
      ''run'',
      ''api_key'', ''camera_index'', ''window_duration'', ''cap'', ''model'', ''running'',
      ''current_window'', ''completed_windows'', ''latest_description'', ''frame_count'',
      ''last_frame_time'', ''frame_interval'']"

text \<open>
  \<open>run\<close>: after the capture loop it evaluates \<^verbatim>\<open>self.process_captions()\<close>. Looking up a
  name the instance does not answer to raises \<^verbatim>\<open>AttributeError\<close>, which \<open>run\<close> does not
  catch; the result is then the error and the state the object is left in. Otherwise the
  result is the final state and the lines of the report.
\<close>

definition run ::
  "host \<Rightarrow> CaptionPostProcessor \<Rightarrow> event list \<Rightarrow>
     (py_error \<times> CaptionPostProcessor) + (CaptionPostProcessor \<times> string list)" where
  \<open>run h p evs =
     (let p1 = capture_and_display h (p\<lparr>running := True\<rparr>) evs
      in if ''process_captions'' \<in> set CaptionPostProcessor_attributes
         then (let p2 = summarize_final_window h p1
               in Inr (p2, print_summary_report h p2))
         else Inl (AttributeError
                     ([CHR 0x27] @ ''CaptionPostProcessor'' @ [CHR 0x27] @
                      '' object has no attribute '' @
                      [CHR 0x27] @ ''process_captions'' @ [CHR 0x27]),
                   p1))\<close>

subsection \<open>The timeline of windows\<close>

text \<open>The completed windows followed by the current one, when there is one.\<close>

definition timeline :: "CaptionPostProcessor \<Rightarrow> CaptionWindow list" where
  "timeline p =
     completed_windows p @ (case current_window p of None \<Rightarrow> [] | Some w \<Rightarrow> [w])"

text \<open>Each window starts exactly where the one before it ends.\<close>

fun contiguous :: "CaptionWindow list \<Rightarrow> bool" where
  "contiguous [] = True"
| "contiguous [w] = True"
| "contiguous (w # w' # ws) = (start_time w' = end_time w \<and> contiguous (w' # ws))"

text \<open>
  Two windows overlap when some instant lies in both half-open ranges
  \<open>[start_time, end_time)\<close>.
\<close>

definition overlap :: "CaptionWindow \<Rightarrow> CaptionWindow \<Rightarrow> bool" where
  "overlap v w = (max (start_time v) (start_time w) < min (end_time v) (end_time w))"

fun non_overlapping :: "CaptionWindow list \<Rightarrow> bool" where
  "non_overlapping [] = True"
| "non_overlapping (w # ws) = (list_all (\<lambda>v. \<not> overlap w v) ws \<and> non_overlapping ws)"

text \<open>\<open>check_window_completion\<close> called \<open>n\<close> times in a row with the same clock value.\<close>

fun checks :: "host \<Rightarrow> real \<Rightarrow> nat \<Rightarrow> CaptionPostProcessor \<Rightarrow> CaptionPostProcessor" where
  "checks h now 0 p = p"
| "checks h now (Suc n) p = checks h now n (check_window_completion h p now)"

text \<open>
  The invariant of the processor over the capture loop: the timeline is contiguous, the
  completed windows are summarized, the current window is not (and before the first
  caption, when there is none, nothing has been completed), and every window is
  \<open>window_duration\<close> long.
\<close>

definition sound :: "CaptionPostProcessor \<Rightarrow> bool" where
  "sound p =
     (contiguous (timeline p) \<and>
      list_all summarized (completed_windows p) \<and>
      (case current_window p of
         None \<Rightarrow> completed_windows p = []
       | Some w \<Rightarrow> \<not> summarized w) \<and>
      list_all (\<lambda>w. end_time w = start_time w + window_duration p) (timeline p))"

subsection \<open>Analysis threads that are interrupted\<close>

text \<open>
  \<open>capture_and_display\<close> starts \<^verbatim>\<open>analyze\<close> in a thread of its own, without a lock and
  without joining it, so the capture loop can call \<open>check_window_completion\<close> between two
  statements of the closure. The closure is split where that matters: \<open>load_window\<close> is the
  closure up to the evaluation of \<^verbatim>\<open>self.current_window\<close> in its last statement, and
  \<open>add_caption_at\<close> is the call of \<open>add_caption\<close> on the window object obtained there.
  Windows are never removed and never reordered, so a window object is named by its
  position in the timeline: the position of the current window is the number of completed
  windows, and the object keeps that position when it is completed.
\<close>

definition load_window ::
  "CaptionPostProcessor \<Rightarrow> outcome \<Rightarrow> real \<Rightarrow> CaptionPostProcessor \<times> nat \<times> CaptionEntry" where
  "load_window p r ts =
     (let description = analyze_frame p r;
          caption = CaptionEntry_init description ts;
          w = (case current_window p of
                 None \<Rightarrow> CaptionWindow_init ts (window_duration p)
               | Some w \<Rightarrow> w)
      in (p\<lparr>latest_description := description, current_window := Some w\<rparr>,
          length (completed_windows p), caption))"

text \<open>
  \<open>add_caption\<close> called on the window object at position \<open>k\<close>, wherever that object now
  is: among the completed windows, or still the current one. A thread only holds a
  position at which there is a window, so the last two cases do not occur.
\<close>

definition add_caption_at ::
  "nat \<Rightarrow> CaptionEntry \<Rightarrow> CaptionPostProcessor \<Rightarrow> CaptionPostProcessor" where
  "add_caption_at k caption p =
     (if k < length (completed_windows p)
      then p\<lparr>completed_windows :=
                (completed_windows p)[k := snd (add_caption (completed_windows p ! k) caption)]\<rparr>
      else if k = length (completed_windows p)
      then (case current_window p of
              Some w \<Rightarrow> p\<lparr>current_window := Some (snd (add_caption w caption))\<rparr>
            | None \<Rightarrow> p)
      else p)"



text \<open>
  What a window keeps once it is sealed, seen from a later state: its time range, its
  summary and its flag are the same, and its captions begin with the captions it had.
  \<open>extends ws ws'\<close>: the windows of \<open>ws\<close> are all still there in \<open>ws'\<close>, at the same
  positions, each of them kept in that sense.
\<close>

definition kept :: "CaptionWindow \<Rightarrow> CaptionWindow \<Rightarrow> bool" where
  "kept w w' =
     (time_range w' = time_range w \<and> summary w' = summary w \<and>
      summarized w' = summarized w \<and> prefix (captions w) (captions w'))"

definition extends :: "CaptionWindow list \<Rightarrow> CaptionWindow list \<Rightarrow> bool" where
  "extends ws ws' = (length ws \<le> length ws' \<and> list_all2 kept ws (take (length ws) ws'))"

subsection \<open>Concrete inputs\<close>

text \<open>
  A host, a model that answers every prompt, a model that answers the probe of
  \<open>initialize_gemini\<close> and raises on every later prompt, the library that returns one of
  them for every model name, and the processors that \<^verbatim>\<open>__init__\<close> builds from them.
\<close>

definition demo_host :: host where
  "demo_host = \<lparr>strftime_hms = (\<lambda>t. ''00:00:00''), str_float = (\<lambda>x. ''10.0'')\<rparr>"

definition answering_model :: gen_model where
  "answering_model = (\<lambda>n prompt. Inr ''Person remained stationary.'')"

definition failing_model :: gen_model where
  "failing_model = (\<lambda>n prompt. if n = 0 then Inr ''Hi'' else Inl ''deadline exceeded'')"

definition demo_genai :: "gen_model \<Rightarrow> string \<Rightarrow> string + gen_model" where
  "demo_genai m = (\<lambda>model_name. Inr m)"

definition demo_processor :: "gen_model \<Rightarrow> real \<Rightarrow> CaptionPostProcessor" where
  "demo_processor m d =
     \<lparr>api_key = ''key'', camera_index = 0, window_duration = d,
      model = Some m, running = False, current_window = None,
      completed_windows = [], latest_description = ''Initializing...'',
      frame_count = 0, last_frame_time = 0, frame_interval = 1 / 2,
      prompt_calls = [''Hello'']\<rparr>"

section \<open>Properties of a window\<close>

text \<open>
  C3: \<open>add_caption\<close> (the spec's \<open>offer\<close>) returns true exactly when
  \<open>start_time \<le> timestamp < end_time\<close>; when it returns true the caption has been
  appended to the captions of the window and nothing else has changed; when it returns
  false the window is unchanged. The function has no error result.
\<close>

theorem add_caption_iff:
  "fst (add_caption w c) = (start_time w \<le> timestamp c \<and> timestamp c < end_time w)
   \<and> (fst (add_caption w c) \<longrightarrow> snd (add_caption w c) = w\<lparr>captions := captions w @ [c]\<rparr>)
   \<and> (\<not> fst (add_caption w c) \<longrightarrow> snd (add_caption w c) = w)"
  by (simp add: add_caption_def)

theorem add_caption_iff_witness:
  "fst (add_caption (CaptionWindow_init 0 30) (CaptionEntry_init ''a cup'' 5))
   \<and> captions (snd (add_caption (CaptionWindow_init 0 30) (CaptionEntry_init ''a cup'' 5)))
       = [\<lparr>text = ''a cup'', timestamp = 5\<rparr>]
   \<and> \<not> fst (add_caption (CaptionWindow_init 0 30) (CaptionEntry_init ''a cup'' 30))
   \<and> snd (add_caption (CaptionWindow_init 0 30) (CaptionEntry_init ''a cup'' 30))
       = CaptionWindow_init 0 30"
  using add_caption_iff [of "CaptionWindow_init 0 30" "CaptionEntry_init ''a cup'' 5"]
        add_caption_iff [of "CaptionWindow_init 0 30" "CaptionEntry_init ''a cup'' 30"]
  by (simp add: CaptionWindow_init_def CaptionEntry_init_def strip_def py_isspace_def)

section \<open>Sealing and rollover\<close>

text \<open>
  What one call of each method does to the windows, and the invariant \<open>sound\<close> along
  every sequence of events of the capture loop.
\<close>

lemma contiguous_snoc:
  "contiguous (ws @ [w]) = (contiguous ws \<and> (ws = [] \<or> start_time w = end_time (last ws)))"
  by (induction ws rule: contiguous.induct) auto

lemma contiguous_snoc2:
  "contiguous (ws @ [a, b]) = (contiguous (ws @ [a]) \<and> start_time b = end_time a)"
  using contiguous_snoc [of "ws @ [a]" b] by simp

lemma summarize_window_seals:
  assumes "summarize_window h p w = (p', w')"
  shows "w' = w\<lparr>summary := summary w', summarized := True\<rparr>"
    and "p' = p\<lparr>prompt_calls := prompt_calls p'\<rparr>"
    and "prefix (prompt_calls p) (prompt_calls p')"
    and "length (prompt_calls p') \<le> Suc (length (prompt_calls p))"
  using assms
  by (auto simp: summarize_window_def Let_def split: option.splits sum.splits if_splits)

lemma complete_current_window_Some:
  assumes "current_window p = Some w"
  shows "\<exists>w' calls. complete_current_window h p =
            p\<lparr>prompt_calls := calls, current_window := Some w',
              completed_windows := completed_windows p @ [w']\<rparr>
          \<and> w' = w\<lparr>summary := summary w', summarized := True\<rparr>
          \<and> prefix (prompt_calls p) calls
          \<and> length calls \<le> Suc (length (prompt_calls p))"
proof (cases "captions w = []")
  case True
  let ?w' = "w\<lparr>summary := ''No captions captured'', summarized := True\<rparr>"
  have "complete_current_window h p =
          p\<lparr>prompt_calls := prompt_calls p, current_window := Some ?w',
            completed_windows := completed_windows p @ [?w']\<rparr>"
    using assms True by (simp add: complete_current_window_def)
  moreover have "?w' = w\<lparr>summary := summary ?w', summarized := True\<rparr>" by simp
  moreover have "prefix (prompt_calls p) (prompt_calls p)" by simp
  moreover have "length (prompt_calls p) \<le> Suc (length (prompt_calls p))" by simp
  ultimately show ?thesis by blast
next
  case False
  obtain p' w' where sw: "summarize_window h p w = (p', w')" by (cases "summarize_window h p w")
  note props = summarize_window_seals [OF sw]
  have "complete_current_window h p =
          p'\<lparr>current_window := Some w', completed_windows := completed_windows p' @ [w']\<rparr>"
    using assms False sw by (simp add: complete_current_window_def)
  also have "\<dots> = p\<lparr>prompt_calls := prompt_calls p', current_window := Some w',
            completed_windows := completed_windows p @ [w']\<rparr>"
    using arg_cong [OF props(2), of completed_windows]
      arg_cong [OF props(2), of "\<lambda>q. q\<lparr>current_window := Some w',
            completed_windows := completed_windows p @ [w']\<rparr>"]
    by simp
  finally show ?thesis using props(1,3,4) by blast
qed

lemma check_window_completion_expired:
  assumes "current_window p = Some w" and "is_complete w now"
  shows "\<exists>w' calls. check_window_completion h p now =
            p\<lparr>prompt_calls := calls,
              current_window := Some (CaptionWindow_init (end_time w) (window_duration p)),
              completed_windows := completed_windows p @ [w']\<rparr>
          \<and> w' = w\<lparr>summary := summary w', summarized := True\<rparr>
          \<and> prefix (prompt_calls p) calls
          \<and> length calls \<le> Suc (length (prompt_calls p))"
proof -
  from complete_current_window_Some [OF assms(1), of h]
  obtain w' calls where c: "complete_current_window h p =
            p\<lparr>prompt_calls := calls, current_window := Some w',
              completed_windows := completed_windows p @ [w']\<rparr>"
    and w': "w' = w\<lparr>summary := summary w', summarized := True\<rparr>"
    and pre: "prefix (prompt_calls p) calls"
    and len: "length calls \<le> Suc (length (prompt_calls p))" by blast
  have e: "end_time w' = end_time w" by (subst w') simp
  have "check_window_completion h p now =
            p\<lparr>prompt_calls := calls,
              current_window := Some (CaptionWindow_init (end_time w) (window_duration p)),
              completed_windows := completed_windows p @ [w']\<rparr>"
    using assms by (simp add: check_window_completion_def c e)
  with w' pre len show ?thesis by blast
qed

lemma check_window_completion_idle:
  "current_window p = None \<Longrightarrow> check_window_completion h p now = p"
  "current_window p = Some w \<Longrightarrow> \<not> is_complete w now \<Longrightarrow> check_window_completion h p now = p"
  by (simp_all add: check_window_completion_def)


lemma add_caption_fields [simp]:
  "start_time (snd (add_caption w c)) = start_time w"
  "end_time (snd (add_caption w c)) = end_time w"
  "summarized (snd (add_caption w c)) = summarized w"
  "summary (snd (add_caption w c)) = summary w"
  by (simp_all add: add_caption_def)

lemma sound_init:
  "CaptionPostProcessor_init G key cam d = Inr p \<Longrightarrow> sound p"
  by (auto simp: CaptionPostProcessor_init_def sound_def timeline_def split: sum.splits)

lemma sound_analyze: "sound p \<Longrightarrow> sound (analyze p r ts)"
  by (cases "current_window p")
     (auto simp: sound_def analyze_def timeline_def Let_def contiguous_snoc
        CaptionWindow_init_def)

lemma sound_check: assumes "sound p" shows "sound (check_window_completion h p now)"
proof (cases "current_window p")
  case None
  then show ?thesis using assms by (simp add: check_window_completion_idle)
next
  case (Some w)
  show ?thesis
  proof (cases "is_complete w now")
    case False
    then show ?thesis using assms Some by (simp add: check_window_completion_idle)
  next
    case True
    from check_window_completion_expired [OF Some True, of h]
    obtain w' calls where c: "check_window_completion h p now =
            p\<lparr>prompt_calls := calls,
              current_window := Some (CaptionWindow_init (end_time w) (window_duration p)),
              completed_windows := completed_windows p @ [w']\<rparr>"
      and w': "w' = w\<lparr>summary := summary w', summarized := True\<rparr>" by blast
    have f: "start_time w' = start_time w" "end_time w' = end_time w" "summarized w'"
      by (subst w', simp)+
    show ?thesis using assms Some f
      by (simp add: c sound_def timeline_def contiguous_snoc contiguous_snoc2
            CaptionWindow_init_def)
  qed
qed

lemma sound_frame: "sound (p\<lparr>last_frame_time := t, frame_count := n\<rparr>) = sound p"
  by (cases "current_window p") (simp_all add: sound_def timeline_def)

lemma sound_step: "sound p \<Longrightarrow> sound (step h p ev)"
  by (cases ev) (simp_all add: sound_analyze sound_check sound_frame)

lemma sound_foldl: "sound p \<Longrightarrow> sound (foldl (step h) p evs)"
  by (induction evs arbitrary: p) (simp_all add: sound_step)

lemma completed_step: "prefix (completed_windows p) (completed_windows (step h p ev))"
proof (cases ev)
  case (Check now)
  show ?thesis
  proof (cases "current_window p")
    case None
    then show ?thesis using Check by (simp add: check_window_completion_idle)
  next
    case (Some w)
    then show ?thesis using Check check_window_completion_expired [OF Some, of now h]
      by (cases "is_complete w now") (auto simp: check_window_completion_idle)
  qed
qed (simp_all add: analyze_def Let_def)

lemma completed_foldl: "prefix (completed_windows p) (completed_windows (foldl (step h) p evs))"
proof (induction evs arbitrary: p)
  case Nil show ?case by simp
next
  case (Cons ev evs)
  have "prefix (completed_windows p) (completed_windows (step h p ev))" by (rule completed_step)
  also have "prefix \<dots> (completed_windows (foldl (step h) (step h p ev) evs))" by (rule Cons.IH)
  finally show ?case by simp
qed

lemma window_duration_step [simp]: "window_duration (step h p ev) = window_duration p"
proof (cases ev)
  case (Check now)
  show ?thesis
  proof (cases "current_window p")
    case None
    then show ?thesis using Check by (simp add: check_window_completion_idle)
  next
    case (Some w)
    then show ?thesis using Check check_window_completion_expired [OF Some, of now h]
      by (cases "is_complete w now") (auto simp: check_window_completion_idle)
  qed
qed (simp_all add: analyze_def Let_def)

lemma window_duration_foldl [simp]:
  "window_duration (foldl (step h) p evs) = window_duration p"
  by (induction evs arbitrary: p) simp_all

lemma window_duration_init:
  "CaptionPostProcessor_init G key cam d = Inr p \<Longrightarrow> window_duration p = d"
  by (auto simp: CaptionPostProcessor_init_def split: sum.splits)

lemma contiguous_later_starts:
  "contiguous (w # ws) \<Longrightarrow> list_all (\<lambda>v. start_time v \<le> end_time v) ws \<Longrightarrow>
   list_all (\<lambda>v. end_time w \<le> start_time v) ws"
proof (induction ws arbitrary: w)
  case Nil
  show ?case by simp
next
  case (Cons u us)
  then have "list_all (\<lambda>v. end_time u \<le> start_time v) us" by simp
  moreover have "end_time w \<le> end_time u" using Cons.prems by simp
  ultimately have "list_all (\<lambda>v. end_time w \<le> start_time v) us"
    by (auto simp: list_all_iff)
  then show ?case using Cons.prems by simp
qed

lemma non_overlapping_forward:
  "contiguous ws \<Longrightarrow> list_all (\<lambda>v. start_time v \<le> end_time v) ws \<Longrightarrow> non_overlapping ws"
proof (induction ws)
  case Nil
  show ?case by simp
next
  case (Cons w ws)
  have later: "list_all (\<lambda>v. end_time w \<le> start_time v) ws"
    using Cons.prems contiguous_later_starts [of w ws] by simp
  have "contiguous ws" using Cons.prems(1) by (cases ws) simp_all
  then have "non_overlapping ws" using Cons by simp
  moreover have "list_all (\<lambda>v. \<not> overlap w v) ws"
    using later by (auto simp: list_all_iff overlap_def)
  ultimately show ?case by simp
qed

lemma non_overlapping_empty_ranges:
  "list_all (\<lambda>v. end_time v < start_time v) ws \<Longrightarrow> non_overlapping ws"
  by (induction ws) (auto simp: list_all_iff overlap_def)

lemma sound_non_overlapping: assumes "sound p" shows "non_overlapping (timeline p)"
proof (cases "0 \<le> window_duration p")
  case True
  have "list_all (\<lambda>w. end_time w = start_time w + window_duration p) (timeline p)"
    using assms by (simp add: sound_def)
  then have "list_all (\<lambda>v. start_time v \<le> end_time v) (timeline p)"
    using True by (auto simp: list_all_iff)
  moreover have "contiguous (timeline p)" using assms by (simp add: sound_def)
  ultimately show ?thesis by (rule non_overlapping_forward [rotated])
next
  case False
  have "list_all (\<lambda>w. end_time w = start_time w + window_duration p) (timeline p)"
    using assms by (simp add: sound_def)
  then have "list_all (\<lambda>v. end_time v < start_time v) (timeline p)"
    using False by (auto simp: list_all_iff)
  then show ?thesis by (rule non_overlapping_empty_ranges)
qed


lemmas demo_defs = demo_host_def answering_model_def failing_model_def demo_genai_def
  demo_processor_def CaptionPostProcessor_init_def initialize_gemini_def model_names_def

lemmas run_defs = analyze_def analyze_frame_def CaptionEntry_init_def CaptionWindow_init_def
  add_caption_def strip_def py_isspace_def check_window_completion_def is_complete_def
  complete_current_window_def summarize_window_def Let_def timeline_def time_range_def


section \<open>The timeline is a partition\<close>

text \<open>
  C2: from the processor that \<^verbatim>\<open>__init__\<close> returns, after every sequence of analysis
  results and calls of \<open>check_window_completion\<close> (the spec's \<open>ingest\<close> and \<open>tick\<close>; the
  clock values need not even be non-decreasing), the completed windows followed by the
  current one are contiguous (each window starts exactly at the end of the one before it,
  because rollover starts the next window at \<open>end_time\<close> of the sealed one and not at the
  clock value), no two of them overlap, and each is \<open>window_duration\<close> long.
\<close>

theorem timeline_partition:
  assumes "CaptionPostProcessor_init G key cam d = Inr p0"
  shows "contiguous (timeline (foldl (step h) p0 evs))
       \<and> non_overlapping (timeline (foldl (step h) p0 evs))
       \<and> list_all (\<lambda>w. end_time w = start_time w + d) (timeline (foldl (step h) p0 evs))"
proof -
  have s: "sound (foldl (step h) p0 evs)"
    using assms by (intro sound_foldl sound_init)
  have "window_duration (foldl (step h) p0 evs) = d"
    using assms by (simp add: window_duration_init)
  with s sound_non_overlapping [OF s] show ?thesis by (simp add: sound_def)
qed


theorem timeline_partition_witness:
  "CaptionPostProcessor_init (demo_genai answering_model) ''key'' 0 10
     = Inr (demo_processor answering_model 10)
   \<and> contiguous (timeline (foldl (step demo_host) (demo_processor answering_model 10)
        [Analyzed (Inr ''a person at a desk'') 0, Check 35, Analyzed (Inr ''a cup'') 12, Check 36]))
   \<and> non_overlapping (timeline (foldl (step demo_host) (demo_processor answering_model 10)
        [Analyzed (Inr ''a person at a desk'') 0, Check 35, Analyzed (Inr ''a cup'') 12, Check 36]))
   \<and> map time_range (timeline (foldl (step demo_host) (demo_processor answering_model 10)
        [Analyzed (Inr ''a person at a desk'') 0, Check 35, Analyzed (Inr ''a cup'') 12, Check 36]))
      = [(0, 10), (10, 20), (20, 30)]"
proof -
  have i: "CaptionPostProcessor_init (demo_genai answering_model) ''key'' 0 10
     = Inr (demo_processor answering_model 10)"
    by (simp add: demo_defs)
  have v: "map time_range (timeline (foldl (step demo_host) (demo_processor answering_model 10)
        [Analyzed (Inr ''a person at a desk'') 0, Check 35, Analyzed (Inr ''a cup'') 12, Check 36]))
      = [(0, 10), (10, 20), (20, 30)]"
    by (simp add: demo_defs run_defs)
  show ?thesis
    using i v timeline_partition [OF i, of demo_host
        "[Analyzed (Inr ''a person at a desk'') 0, Check 35, Analyzed (Inr ''a cup'') 12, Check 36]"]
    by simp
qed

section \<open>Catching up after a late check\<close>

text \<open>
  C1 as stated fails: \<open>check_window_completion\<close> tests the current window once. With a
  window duration of 10, a first caption at clock value 0 and no check before 35, the one
  call at 35 seals \<open>[0, 10)\<close> only and leaves \<open>[10, 20)\<close> as the current window, not
  \<open>[30, 40)\<close>.
\<close>

theorem single_check_counterexample:
  "map time_range (completed_windows (check_window_completion demo_host
       (analyze (demo_processor answering_model 10) (Inr ''a person at a desk'') 0) 35))
     = [(0, 10)]
   \<and> map_option time_range (current_window (check_window_completion demo_host
       (analyze (demo_processor answering_model 10) (Inr ''a person at a desk'') 0) 35))
     = Some (10, 20)
   \<and> \<not> (map time_range (completed_windows (check_window_completion demo_host
       (analyze (demo_processor answering_model 10) (Inr ''a person at a desk'') 0) 35))
         = [(0, 10), (10, 20), (20, 30)]
       \<and> map_option time_range (current_window (check_window_completion demo_host
       (analyze (demo_processor answering_model 10) (Inr ''a person at a desk'') 0) 35))
         = Some (30, 40))"
  by (simp add: demo_defs run_defs)


lemma checks_idle:
  "current_window p = Some w \<Longrightarrow> \<not> is_complete w now \<Longrightarrow> checks h now n p = p"
  by (induction n) (simp_all add: check_window_completion_idle)

lemma CaptionWindow_init_times [simp]:
  "start_time (CaptionWindow_init s d) = s" "end_time (CaptionWindow_init s d) = s + d"
  by (simp_all add: CaptionWindow_init_def)

lemma checks_spans:
  assumes "current_window p = Some w" and "window_duration p = d" and "0 < d"
    and "end_time w + real n * d \<le> now"
  shows "map time_range (completed_windows (checks h now (Suc n) p)) =
           map time_range (completed_windows p) @ time_range w #
           map (\<lambda>i. (end_time w + real i * d, end_time w + real (Suc i) * d)) [0..<n]
       \<and> current_window (checks h now (Suc n) p) =
           Some (CaptionWindow_init (end_time w + real n * d) d)"
  using assms
proof (induction n arbitrary: p w)
  case 0
  then have "is_complete w now" by (simp add: is_complete_def)
  from check_window_completion_expired [OF "0.prems"(1) this, of h]
  obtain w' calls where c: "check_window_completion h p now =
            p\<lparr>prompt_calls := calls,
              current_window := Some (CaptionWindow_init (end_time w) (window_duration p)),
              completed_windows := completed_windows p @ [w']\<rparr>"
      and w': "w' = w\<lparr>summary := summary w', summarized := True\<rparr>" by blast
  have "time_range w' = time_range w" by (subst w') (simp add: time_range_def)
  then show ?case using "0.prems" by (simp add: c)
next
  case (Suc n)
  have le: "end_time w + real n * d \<le> end_time w + real (Suc n) * d"
    using \<open>0 < d\<close> by (simp add: algebra_simps)
  have "0 \<le> real (Suc n) * d" using \<open>0 < d\<close> by simp
  then have "is_complete w now" using Suc.prems(4) unfolding is_complete_def by linarith
  from check_window_completion_expired [OF Suc.prems(1) this, of h]
  obtain w' calls where c: "check_window_completion h p now =
            p\<lparr>prompt_calls := calls,
              current_window := Some (CaptionWindow_init (end_time w) (window_duration p)),
              completed_windows := completed_windows p @ [w']\<rparr>"
      and w': "w' = w\<lparr>summary := summary w', summarized := True\<rparr>" by blast
  have sp: "time_range w' = time_range w" by (subst w') (simp add: time_range_def)
  let ?q = "check_window_completion h p now"
  let ?v = "CaptionWindow_init (end_time w) d"
  have q1: "current_window ?q = Some ?v" using Suc.prems by (simp add: c)
  have q2: "window_duration ?q = d" using Suc.prems by (simp add: c)
  have q4: "end_time ?v + real n * d \<le> now" using Suc.prems by (simp add: algebra_simps)
  note IH = Suc.IH [OF q1 q2 \<open>0 < d\<close> q4]
  have m: "map (\<lambda>i. (end_time w + real i * d, end_time w + real (Suc i) * d)) [0..<Suc n]
         = time_range ?v # map (\<lambda>i. (end_time ?v + real i * d, end_time ?v + real (Suc i) * d)) [0..<n]"
    by (simp add: upt_conv_Cons map_Suc_upt [symmetric] time_range_def algebra_simps del: upt_Suc)
  have "checks h now (Suc (Suc n)) p = checks h now (Suc n) ?q" by simp
  then show ?case using IH m sp by (simp add: c algebra_simps del: checks.simps upt_Suc)
qed


lemma checks_add: "checks h now (m + k) p = checks h now k (checks h now m p)"
  by (induction m arbitrary: p) simp_all


text \<open>
  C1, amended: for a positive window duration \<open>d\<close>, one call of
  \<open>check_window_completion\<close> seals at most one window, the current one when it is expired,
  and rolls over to the window that starts at its end, expired or not. The capture loop
  calls it once per frame, and repeated calls catch up one window per call: when \<open>n\<close>
  more window durations have elapsed since the end of the current window
  (\<open>end_time + n * d \<le> now\<close>), \<open>n + 1\<close> calls with that clock value seal \<open>n + 1\<close>
  windows in order, the current one and then \<open>[end_time + i * d, end_time + (i + 1) * d)\<close>
  for \<open>i < n\<close>, and leave the window starting at \<open>end_time + n * d\<close> current; when that
  window is not expired, further calls change nothing.
\<close>

theorem checks_catch_up:
  assumes "current_window p = Some w" and "window_duration p = d" and "0 < d"
    and "end_time w + real n * d \<le> now"
  shows "map time_range (completed_windows (checks h now (Suc n) p)) =
           map time_range (completed_windows p) @ time_range w #
           map (\<lambda>i. (end_time w + real i * d, end_time w + real (Suc i) * d)) [0..<n]
       \<and> current_window (checks h now (Suc n) p) =
           Some (CaptionWindow_init (end_time w + real n * d) d)
       \<and> (now < end_time w + real (Suc n) * d \<longrightarrow>
            checks h now (Suc n + k) p = checks h now (Suc n) p)"
proof -
  note s = checks_spans [OF assms, of h]
  have "checks h now (Suc n + k) p = checks h now (Suc n) p"
    if "now < end_time w + real (Suc n) * d"
  proof -
    have "\<not> is_complete (CaptionWindow_init (end_time w + real n * d) d) now"
      using that by (simp add: is_complete_def algebra_simps)
    with s show ?thesis
      unfolding checks_add by (intro checks_idle) simp_all
  qed
  with s show ?thesis by blast
qed

theorem checks_catch_up_witness:
  "current_window (analyze (demo_processor answering_model 10) (Inr ''a person at a desk'') 0)
     = Some \<lparr>start_time = 0, end_time = 10,
             captions = [\<lparr>text = ''a person at a desk'', timestamp = 0\<rparr>],
             summary = [], summarized = False\<rparr>
   \<and> window_duration (analyze (demo_processor answering_model 10) (Inr ''a person at a desk'') 0)
     = 10
   \<and> (0 :: real) < 10
   \<and> (10 :: real) + real 2 * 10 \<le> 35
   \<and> (35 :: real) < 10 + real (Suc 2) * 10
   \<and> map time_range (completed_windows (checks demo_host 35 (Suc 2)
        (analyze (demo_processor answering_model 10) (Inr ''a person at a desk'') 0)))
     = [(0, 10), (10, 20), (20, 30)]
   \<and> map_option time_range (current_window (checks demo_host 35 (Suc 2)
        (analyze (demo_processor answering_model 10) (Inr ''a person at a desk'') 0)))
     = Some (30, 40)
   \<and> checks demo_host 35 (Suc 2 + 5)
        (analyze (demo_processor answering_model 10) (Inr ''a person at a desk'') 0)
     = checks demo_host 35 (Suc 2)
        (analyze (demo_processor answering_model 10) (Inr ''a person at a desk'') 0)"
proof -
  let ?p = "analyze (demo_processor answering_model 10) (Inr ''a person at a desk'') 0"
  let ?w = "\<lparr>start_time = 0, end_time = 10,
             captions = [\<lparr>text = ''a person at a desk'', timestamp = 0\<rparr>],
             summary = [], summarized = False\<rparr>"
  have 1: "current_window ?p = Some ?w" by (simp add: demo_defs run_defs)
  have 2: "window_duration ?p = 10" by (simp add: demo_defs run_defs)
  have 3: "(0 :: real) < 10" by simp
  have 4: "end_time ?w + real 2 * 10 \<le> 35" by simp
  have 5: "completed_windows ?p = []" by (simp add: demo_defs run_defs)
  show ?thesis
    using 1 2 5 checks_catch_up [OF 1 2 3 4, of demo_host 5]
    by (simp add: time_range_def upt_conv_Cons del: upt_Suc)
qed

section \<open>Windows without captions\<close>

text \<open>
  C5 as stated fails on the text of the summary: a window that expires with no caption
  is sealed with the summary \<open>No captions captured\<close>, not
  \<open>no activity observed in this window\<close>.
\<close>

theorem empty_window_summary_counterexample:
  "map (\<lambda>w. (time_range w, captions w, summary w, summarized w))
     (completed_windows (foldl (step demo_host) (demo_processor answering_model 10)
        [Analyzed (Inr ''a person at a desk'') 0, Check 35, Check 35]))
   ! 1 = ((10, 20), [], ''No captions captured'', True)
   \<and> \<not> summary (completed_windows (foldl (step demo_host) (demo_processor answering_model 10)
        [Analyzed (Inr ''a person at a desk'') 0, Check 35, Check 35]) ! 1)
       = ''no activity observed in this window''"
  by (simp add: demo_defs run_defs)

text \<open>
  C5, amended: sealing an expired current window that holds no caption sets the fixed
  summary \<open>No captions captured\<close>, marks the window summarized, appends it to the completed
  windows and rolls over; no prompt is sent to the model.
\<close>

theorem empty_window_sentinel:
  assumes "current_window p = Some w" and "captions w = []" and "is_complete w now"
  shows "check_window_completion h p now =
           p\<lparr>current_window := Some (CaptionWindow_init (end_time w) (window_duration p)),
             completed_windows := completed_windows p @
               [w\<lparr>summary := ''No captions captured'', summarized := True\<rparr>]\<rparr>
       \<and> prompt_calls (check_window_completion h p now) = prompt_calls p"
  using assms by (simp add: check_window_completion_def complete_current_window_def)

theorem empty_window_sentinel_witness:
  "current_window (foldl (step demo_host) (demo_processor answering_model 10)
        [Analyzed (Inr ''a person at a desk'') 0, Check 35]) = Some (CaptionWindow_init 10 10)
   \<and> captions (CaptionWindow_init 10 10) = []
   \<and> is_complete (CaptionWindow_init 10 10) 35
   \<and> map (\<lambda>w. (time_range w, captions w, summary w, summarized w))
       (completed_windows (check_window_completion demo_host
          (foldl (step demo_host) (demo_processor answering_model 10)
             [Analyzed (Inr ''a person at a desk'') 0, Check 35]) 35)) ! 1
     = ((10, 20), [], ''No captions captured'', True)
   \<and> prompt_calls (check_window_completion demo_host
          (foldl (step demo_host) (demo_processor answering_model 10)
             [Analyzed (Inr ''a person at a desk'') 0, Check 35]) 35)
     = prompt_calls (foldl (step demo_host) (demo_processor answering_model 10)
             [Analyzed (Inr ''a person at a desk'') 0, Check 35])"
proof -
  let ?p = "foldl (step demo_host) (demo_processor answering_model 10)
        [Analyzed (Inr ''a person at a desk'') 0, Check 35]"
  have 1: "current_window ?p = Some (CaptionWindow_init 10 10)"
    by (simp add: demo_defs run_defs)
  have 2: "captions (CaptionWindow_init 10 10) = []" by (simp add: CaptionWindow_init_def)
  have 3: "is_complete (CaptionWindow_init 10 10) 35"
    by (simp add: CaptionWindow_init_def is_complete_def)
  have 4: "length (completed_windows ?p) = 1" by (simp add: demo_defs run_defs)
  show ?thesis
    using 1 2 3 4 empty_window_sentinel [OF 1 2 3, of demo_host]
    by (simp add: CaptionWindow_init_def time_range_def nth_append)
qed

section \<open>A summarization that fails\<close>

text \<open>
  C6: when the current window is expired and holds captions and the call of the model
  for its summary raises (with message \<open>msg\<close>), \<open>check_window_completion\<close> still returns:
  the window is appended to the completed windows, summarized, with the summary
  \<open>Summary error: msg\<close>, and the next window, starting at its end, is the current one; a
  caption whose timestamp lies in that next window is then accepted by it.
\<close>

theorem oracle_failure_isolated:
  assumes "current_window p = Some w" and "captions w \<noteq> []" and "is_complete w now"
    and "model p = Some m"
    and "m (length (prompt_calls p)) (summary_prompt h (window_duration p) w) = Inl msg"
  shows "check_window_completion h p now =
           p\<lparr>prompt_calls := prompt_calls p @ [summary_prompt h (window_duration p) w],
             current_window := Some (CaptionWindow_init (end_time w) (window_duration p)),
             completed_windows := completed_windows p @
               [w\<lparr>summary := ''Summary error: '' @ msg, summarized := True\<rparr>]\<rparr>
       \<and> (end_time w \<le> ts \<and> ts < end_time w + window_duration p \<longrightarrow>
            current_window (analyze (check_window_completion h p now) r ts) =
              Some ((CaptionWindow_init (end_time w) (window_duration p))
                     \<lparr>captions := [CaptionEntry_init (analyze_frame p r) ts]\<rparr>))"
proof -
  have c: "check_window_completion h p now =
           p\<lparr>prompt_calls := prompt_calls p @ [summary_prompt h (window_duration p) w],
             current_window := Some (CaptionWindow_init (end_time w) (window_duration p)),
             completed_windows := completed_windows p @
               [w\<lparr>summary := ''Summary error: '' @ msg, summarized := True\<rparr>]\<rparr>"
    using assms
    by (simp add: check_window_completion_def complete_current_window_def
          summarize_window_def Let_def)
  have "current_window (analyze (check_window_completion h p now) r ts) =
              Some ((CaptionWindow_init (end_time w) (window_duration p))
                     \<lparr>captions := [CaptionEntry_init (analyze_frame p r) ts]\<rparr>)"
    if "end_time w \<le> ts" "ts < end_time w + window_duration p"
    using that
    by (simp add: c analyze_def Let_def add_caption_def analyze_frame_def
          CaptionEntry_init_def CaptionWindow_init_def)
  with c show ?thesis by blast
qed


theorem oracle_failure_isolated_witness:
  "current_window (analyze (demo_processor failing_model 10) (Inr ''a person at a desk'') 0)
     = Some \<lparr>start_time = 0, end_time = 10,
             captions = [\<lparr>text = ''a person at a desk'', timestamp = 0\<rparr>],
             summary = [], summarized = False\<rparr>
   \<and> is_complete \<lparr>start_time = 0, end_time = 10,
             captions = [\<lparr>text = ''a person at a desk'', timestamp = 0\<rparr>],
             summary = [], summarized = False\<rparr> 35
   \<and> model (analyze (demo_processor failing_model 10) (Inr ''a person at a desk'') 0)
     = Some failing_model
   \<and> failing_model
        (length (prompt_calls
           (analyze (demo_processor failing_model 10) (Inr ''a person at a desk'') 0)))
        (summary_prompt demo_host 10 \<lparr>start_time = 0, end_time = 10,
             captions = [\<lparr>text = ''a person at a desk'', timestamp = 0\<rparr>],
             summary = [], summarized = False\<rparr>)
     = Inl ''deadline exceeded''
   \<and> completed_windows (check_window_completion demo_host
         (analyze (demo_processor failing_model 10) (Inr ''a person at a desk'') 0) 35)
     = [\<lparr>start_time = 0, end_time = 10,
         captions = [\<lparr>text = ''a person at a desk'', timestamp = 0\<rparr>],
         summary = ''Summary error: deadline exceeded'', summarized = True\<rparr>]
   \<and> current_window (check_window_completion demo_host
         (analyze (demo_processor failing_model 10) (Inr ''a person at a desk'') 0) 35)
     = Some (CaptionWindow_init 10 10)
   \<and> current_window (analyze (check_window_completion demo_host
         (analyze (demo_processor failing_model 10) (Inr ''a person at a desk'') 0) 35)
         (Inr ''a cup on the desk'') 12)
     = Some \<lparr>start_time = 10, end_time = 20,
             captions = [\<lparr>text = ''a cup on the desk'', timestamp = 12\<rparr>],
             summary = [], summarized = False\<rparr>"
proof -
  let ?p = "analyze (demo_processor failing_model 10) (Inr ''a person at a desk'') 0"
  let ?w = "\<lparr>start_time = 0, end_time = 10,
             captions = [\<lparr>text = ''a person at a desk'', timestamp = 0\<rparr>],
             summary = [], summarized = False\<rparr>"
  have 1: "current_window ?p = Some ?w" by (simp add: demo_defs run_defs)
  have 2: "captions ?w \<noteq> []" by simp
  have 3: "is_complete ?w 35" by (simp add: is_complete_def)
  have 4: "model ?p = Some failing_model" by (simp add: demo_defs run_defs)
  have 5: "failing_model (length (prompt_calls ?p)) (summary_prompt demo_host (window_duration ?p) ?w)
             = Inl ''deadline exceeded''"
    by (simp add: demo_defs run_defs)
  have 6: "window_duration ?p = 10" "completed_windows ?p = []"
    by (simp_all add: demo_defs run_defs)
  show ?thesis
    using 1 3 4 5 6 oracle_failure_isolated [OF 1 2 3 4 5, of 12 "Inr ''a cup on the desk''"]
    by (simp add: demo_defs run_defs)
qed

section \<open>Construction\<close>

text \<open>
  C7 as stated fails: \<^verbatim>\<open>__init__\<close> never looks at the window duration. With a library
  whose models answer, construction succeeds for the durations 0 and -5.
\<close>

theorem init_accepts_any_duration_counterexample:
  "CaptionPostProcessor_init (demo_genai answering_model) ''key'' 0 0
     = Inr (demo_processor answering_model 0)
   \<and> CaptionPostProcessor_init (demo_genai answering_model) ''key'' 0 (- 5)
     = Inr (demo_processor answering_model (- 5))
   \<and> \<not> (\<exists>e. CaptionPostProcessor_init (demo_genai answering_model) ''key'' 0 0 = Inl e)"
  by (simp add: demo_defs)

text \<open>
  C7, amended: construction fails exactly when none of the candidate model names yields
  a model that answers the probe, whatever the window duration (so it fails for a
  duration \<open>d\<close> exactly when it fails for any other duration \<open>d'\<close>); when it succeeds the
  processor holds the duration it was given, has no current window and no completed
  window.
\<close>

theorem init_ignores_duration:
  "(case CaptionPostProcessor_init G key cam d of
      Inl e \<Rightarrow> try_models G model_names = None
               \<and> e = Exception ''Could not initialize any Gemini model''
    | Inr p \<Rightarrow> model p = try_models G model_names \<and> window_duration p = d
               \<and> current_window p = None \<and> completed_windows p = [])
   \<and> ((\<exists>e. CaptionPostProcessor_init G key cam d = Inl e)
        = (\<exists>e. CaptionPostProcessor_init G key cam d' = Inl e))"
  by (simp add: CaptionPostProcessor_init_def initialize_gemini_def split: option.splits)

section \<open>Sealed windows stay sealed\<close>

text \<open>
  An analysis that is not interrupted is \<open>load_window\<close> followed at once by
  \<open>add_caption_at\<close>; the lemmas after it follow the processor through events in which a
  thread may be interrupted in between.
\<close>

lemma analyze_split:
  "analyze p r ts = (case load_window p r ts of (p1, k, c) \<Rightarrow> add_caption_at k c p1)"
  by (simp add: analyze_def load_window_def add_caption_at_def Let_def)

lemma kept_refl [simp]: "kept w w"
  by (simp add: kept_def)


lemma kept_add_caption [simp]: "kept w (snd (add_caption w c))"
  by (simp add: kept_def add_caption_def time_range_def)

lemma extends_nth:
  "extends ws ws' =
     (length ws \<le> length ws' \<and> (\<forall>j < length ws. kept (ws ! j) (ws' ! j)))"
  by (auto simp: extends_def list_all2_conv_all_nth)

lemma extends_refl [simp]: "extends ws ws"
  by (simp add: extends_nth)



lemma completed_load_window [simp]:
  "completed_windows (fst (load_window p r ts)) = completed_windows p"
  by (simp add: load_window_def Let_def)





















section \<open>The completed windows and the report\<close>

lemma summarize_final_window_cases:
  "current_window p = None \<Longrightarrow> summarize_final_window h p = p"
  "current_window p = Some w \<Longrightarrow> captions w = [] \<Longrightarrow> summarize_final_window h p = p"
  "current_window p = Some w \<Longrightarrow> captions w \<noteq> [] \<Longrightarrow>
     \<exists>w'. completed_windows (summarize_final_window h p) = completed_windows p @ [w']
        \<and> current_window (summarize_final_window h p) = Some w'
        \<and> w' = w\<lparr>summary := summary w', summarized := True\<rparr>"
proof -
  assume c: "current_window p = Some w" and n: "captions w \<noteq> []"
  obtain p' w' where sw: "summarize_window h p w = (p', w')" by (cases "summarize_window h p w")
  note props = summarize_window_seals [OF sw]
  have "completed_windows p' = completed_windows p"
    using arg_cong [OF props(2), of completed_windows] by simp
  then have "completed_windows (summarize_final_window h p) = completed_windows p @ [w']"
    "current_window (summarize_final_window h p) = Some w'"
    using c n sw by (simp_all add: summarize_final_window_def)
  with props(1) show "\<exists>w'. completed_windows (summarize_final_window h p) = completed_windows p @ [w']
        \<and> current_window (summarize_final_window h p) = Some w'
        \<and> w' = w\<lparr>summary := summary w', summarized := True\<rparr>" by blast
qed (simp_all add: summarize_final_window_def)

lemma summarize_final_window_summarized:
  assumes "list_all summarized (completed_windows p)"
  shows "list_all summarized (completed_windows (summarize_final_window h p))"
proof (cases "current_window p")
  case None
  then show ?thesis using assms by (simp add: summarize_final_window_cases)
next
  case (Some w)
  show ?thesis
  proof (cases "captions w = []")
    case True
    then show ?thesis using assms Some by (simp add: summarize_final_window_cases)
  next
    case False
    from summarize_final_window_cases(3) [OF Some False, of h]
    obtain w' where c: "completed_windows (summarize_final_window h p) = completed_windows p @ [w']"
      and w': "w' = w\<lparr>summary := summary w', summarized := True\<rparr>" by blast
    have "summarized w'" by (subst w') simp
    then show ?thesis using assms by (simp add: c)
  qed
qed


text \<open>
  C10: from the processor that \<^verbatim>\<open>__init__\<close> returns, after every sequence of events of
  the capture loop every window of \<open>completed_windows\<close> is summarized; the same holds after
  the final block of \<open>run\<close>, the other place that appends to the list; the windows stay as
  they are under any further events; and for each of them the report prints the line
  \<open>Summary: \<close> followed by its summary, the branch taken when \<open>summarized\<close> holds, so
  the branch that prints \<open>Summary: Not available\<close> is not taken.
\<close>

theorem completed_windows_summarized:
  assumes "CaptionPostProcessor_init G key cam d = Inr p0"
  shows "list_all summarized (completed_windows (foldl (step h) p0 evs))
       \<and> list_all summarized
           (completed_windows (summarize_final_window h (capture_and_display h p0 evs)))
       \<and> prefix (completed_windows (foldl (step h) p0 evs))
                (completed_windows (foldl (step h) p0 (evs @ evs')))
       \<and> list_all (\<lambda>iw. report_window h iw ! 2 = ''Summary: '' @ summary (snd iw))
           (zip [1 ..< Suc (length (completed_windows (foldl (step h) p0 evs)))]
                (completed_windows (foldl (step h) p0 evs)))"
proof -
  have s: "sound (foldl (step h) p0 evs)"
    using assms by (intro sound_foldl sound_init)
  then have a: "list_all summarized (completed_windows (foldl (step h) p0 evs))"
    by (simp add: sound_def)
  then have "list_all summarized (completed_windows (capture_and_display h p0 evs))"
    by (simp add: capture_and_display_def cleanup_def)
  then have b: "list_all summarized
           (completed_windows (summarize_final_window h (capture_and_display h p0 evs)))"
    by (rule summarize_final_window_summarized)
  have c: "prefix (completed_windows (foldl (step h) p0 evs))
                (completed_windows (foldl (step h) p0 (evs @ evs')))"
    by (simp add: completed_foldl)
  have d: "list_all (\<lambda>iw. report_window h iw ! 2 = ''Summary: '' @ summary (snd iw))
           (zip [1 ..< Suc (length (completed_windows (foldl (step h) p0 evs)))]
                (completed_windows (foldl (step h) p0 evs)))"
    using a by (auto simp: list_all_iff report_window_def dest: set_zip_rightD)
  from a b c d show ?thesis by blast
qed


theorem completed_windows_summarized_witness:
  "CaptionPostProcessor_init (demo_genai answering_model) ''key'' 0 10
     = Inr (demo_processor answering_model 10)
   \<and> map (\<lambda>w. (time_range w, summary w, summarized w))
       (completed_windows (foldl (step demo_host) (demo_processor answering_model 10)
          [Analyzed (Inr ''a person at a desk'') 0, Check 35, Check 35]))
     = [((0, 10), ''Person remained stationary.'', True),
        ((10, 20), ''No captions captured'', True)]
   \<and> list_all summarized
       (completed_windows (summarize_final_window demo_host
          (capture_and_display demo_host (demo_processor answering_model 10)
             [Analyzed (Inr ''a person at a desk'') 0, Check 35, Check 35])))
   \<and> prefix
       (completed_windows (foldl (step demo_host) (demo_processor answering_model 10)
          [Analyzed (Inr ''a person at a desk'') 0, Check 35, Check 35]))
       (completed_windows (foldl (step demo_host) (demo_processor answering_model 10)
          ([Analyzed (Inr ''a person at a desk'') 0, Check 35, Check 35] @ [Check 36])))
   \<and> map (\<lambda>iw. report_window demo_host iw ! 2)
       (zip [1 ..< Suc 2]
          (completed_windows (foldl (step demo_host) (demo_processor answering_model 10)
             [Analyzed (Inr ''a person at a desk'') 0, Check 35, Check 35])))
     = [''Summary: Person remained stationary.'', ''Summary: No captions captured'']"
proof -
  let ?evs = "[Analyzed (Inr ''a person at a desk'') 0, Check 35, Check 35]"
  have i: "CaptionPostProcessor_init (demo_genai answering_model) ''key'' 0 10
     = Inr (demo_processor answering_model 10)"
    by (simp add: demo_defs)
  have v: "map (\<lambda>w. (time_range w, summary w, summarized w))
       (completed_windows (foldl (step demo_host) (demo_processor answering_model 10) ?evs))
     = [((0, 10), ''Person remained stationary.'', True),
        ((10, 20), ''No captions captured'', True)]"
    by (simp add: demo_defs run_defs)
  have r: "map (\<lambda>iw. report_window demo_host iw ! 2)
       (zip [1 ..< Suc 2]
          (completed_windows (foldl (step demo_host) (demo_processor answering_model 10) ?evs)))
     = [''Summary: Person remained stationary.'', ''Summary: No captions captured'']"
    by (simp add: demo_defs run_defs report_window_def upt_conv_Cons del: upt_Suc)
  show ?thesis
    using i v r completed_windows_summarized [OF i, of demo_host ?evs "[Check 36]"]
    by simp
qed

section \<open>Shutdown\<close>

text \<open>
  C9: \<open>run\<close> always ends with \<^verbatim>\<open>AttributeError\<close>: after the capture loop it looks up
  \<open>process_captions\<close>, which is neither a method of the class nor a field set by the
  constructor. It never returns a final state and a report; the processor is left as the
  capture loop left it, its current window neither sealed nor appended by \<open>run\<close>.
\<close>

theorem run_raises_AttributeError:
  "run h p evs =
     Inl (AttributeError ([CHR 0x27] @ ''CaptionPostProcessor'' @ [CHR 0x27] @
                          '' object has no attribute '' @
                          [CHR 0x27] @ ''process_captions'' @ [CHR 0x27]),
          capture_and_display h (p\<lparr>running := True\<rparr>) evs)
   \<and> (\<forall>p2 report. run h p evs \<noteq> Inr (p2, report))
   \<and> completed_windows (capture_and_display h (p\<lparr>running := True\<rparr>) evs)
       = completed_windows (foldl (step h) (p\<lparr>running := True\<rparr>) evs)
   \<and> current_window (capture_and_display h (p\<lparr>running := True\<rparr>) evs)
       = current_window (foldl (step h) (p\<lparr>running := True\<rparr>) evs)"
  by (simp add: run_def CaptionPostProcessor_attributes_def Let_def
        capture_and_display_def cleanup_def)


text \<open>
  C8: the shutdown of the spec (\<open>drain\<close>) is the final block of \<open>run\<close>, and \<open>run\<close> does not
  reach it. With two captions in the current window \<open>[0, 10)\<close> when the capture loop ends,
  \<open>run\<close> raises and leaves the window current, not summarized, and no window completed;
  the final block, had it run on that state, would have completed the window with its two
  captions, summarized.
\<close>

theorem run_leaves_final_window_unsealed:
  "(case run demo_host (demo_processor answering_model 10)
           [Analyzed (Inr ''a person at a desk'') 0, Analyzed (Inr ''a cup on the desk'') 1] of
      Inl (e, q) \<Rightarrow>
        completed_windows q = []
        \<and> map_option (\<lambda>w. (time_range w, map text (captions w), summary w, summarized w))
            (current_window q)
          = Some ((0, 10), [''a person at a desk'', ''a cup on the desk''], [], False)
    | Inr (q, report) \<Rightarrow> False)
   \<and> map (\<lambda>w. (time_range w, map text (captions w), summarized w))
       (completed_windows (summarize_final_window demo_host
          (capture_and_display demo_host (demo_processor answering_model 10)
             [Analyzed (Inr ''a person at a desk'') 0, Analyzed (Inr ''a cup on the desk'') 1])))
     = [((0, 10), [''a person at a desk'', ''a cup on the desk''], True)]"
  by (simp add: run_def CaptionPostProcessor_attributes_def capture_and_display_def
        cleanup_def summarize_final_window_def demo_defs run_defs)

end
